theory Spec2Isabelle
  imports Complex_Main
begin

section \<open>Python objects of neon/layers/container.py\<close>

text \<open>
  The module is dynamically typed Python 2: a constructor receives any object and
  inspects it with \<^verbatim>\<open>isinstance\<close>, \<^verbatim>\<open>type\<close> and \<^verbatim>\<open>hasattr\<close>. The model therefore has
  one universe of objects. Every layer object carries a handle \<open>oid\<close>, its identity:
  \<^verbatim>\<open>a is b\<close> compares handles. The \<^verbatim>\<open>name\<close> attribute of a layer plays no part in any
  function modelled here and is left out.
\<close>

datatype error =
  IndexError | AssertionError | AttributeError | TypeError | NameError | ValueError

text \<open>
  The leaf classes of neon.layers.layer that container.py names, and any other Layer
  subclass by its class name.
\<close>

datatype leafcls = BranchNode | Dropout | DataTransform | Convolution | LayerClass string

text \<open>
  \<open>Leaf oid cls owns_output K str_h\<close>: a layer of neon.layers.layer; \<open>K\<close> and \<open>str_h\<close> are
  the two entries of \<^verbatim>\<open>convparams\<close> that container.py reads (of a Convolution).
  \<open>PyTuple\<close> stands for any iterable that is not a list; \<open>PyAtom\<close> for any object that
  is neither iterable nor a Layer (an int, None, a Python 2 str).
\<close>

datatype pyobj =
    PyAtom string
  | PyList "pyobj list"
  | PyTuple "pyobj list"
  | Leaf nat leafcls bool int int
  | Sequential nat "pyobj list"
  | Tree nat "pyobj list" "real list" "real list"
  | MergeBroadcast nat "pyobj list" "real list" "real list" string
  | MergeMultistream nat "pyobj list" "real list" "real list" string
  | ResidualModule nat "pyobj list" "pyobj option"

text \<open>
  Field order: \<open>Tree oid layers alphas betas\<close>,
  \<open>MergeBroadcast oid layers betas alphas merge\<close> (the order of assignment in
  \<^verbatim>\<open>__init__\<close>), \<open>ResidualModule oid layers skip_layer\<close>.
\<close>

datatype pytype =
    TAtom | TList | TTuple | TLeaf leafcls
  | TSequential | TTree | TMergeBroadcast | TMergeMultistream | TResidualModule

fun type_of :: "pyobj \<Rightarrow> pytype" where
  "type_of (PyAtom _) = TAtom"
| "type_of (PyList _) = TList"
| "type_of (PyTuple _) = TTuple"
| "type_of (Leaf _ c _ _ _) = TLeaf c"
| "type_of (Sequential _ _) = TSequential"
| "type_of (Tree _ _ _ _) = TTree"
| "type_of (MergeBroadcast _ _ _ _ _) = TMergeBroadcast"
| "type_of (MergeMultistream _ _ _ _ _) = TMergeMultistream"
| "type_of (ResidualModule _ _ _) = TResidualModule"

text \<open>\<^verbatim>\<open>isinstance(x, Layer)\<close>: every leaf and every container is a Layer.\<close>

fun isinstance_Layer :: "pyobj \<Rightarrow> bool" where
  "isinstance_Layer (PyAtom _) = False"
| "isinstance_Layer (PyList _) = False"
| "isinstance_Layer (PyTuple _) = False"
| "isinstance_Layer _ = True"

definition isinstance_Sequential :: "pyobj \<Rightarrow> bool" where
  "isinstance_Sequential x = (type_of x = TSequential)"

definition isinstance_list :: "pyobj \<Rightarrow> bool" where
  "isinstance_list x = (type_of x = TList)"

text \<open>The handle of a layer object; objects that are not layers have none.\<close>

fun oid :: "pyobj \<Rightarrow> nat option" where
  "oid (Leaf i _ _ _ _) = Some i"
| "oid (Sequential i _) = Some i"
| "oid (Tree i _ _ _) = Some i"
| "oid (MergeBroadcast i _ _ _ _) = Some i"
| "oid (MergeMultistream i _ _ _ _) = Some i"
| "oid (ResidualModule i _ _) = Some i"
| "oid _ = None"

text \<open>
  \<^verbatim>\<open>a is b\<close> where \<open>b\<close> may be None (the initial \<^verbatim>\<open>next_root\<close> of \<^verbatim>\<open>Tree.__init__\<close>).
\<close>

definition is_obj :: "pyobj \<Rightarrow> pyobj option \<Rightarrow> bool" where
  "is_obj a b = (case b of None \<Rightarrow> False
                 | Some b' \<Rightarrow> (case oid a of None \<Rightarrow> False | Some i \<Rightarrow> oid b' = Some i))"

text \<open>\<^verbatim>\<open>x.layers\<close>: only containers have the attribute.\<close>

fun layers_of :: "pyobj \<Rightarrow> error + pyobj list" where
  "layers_of (Sequential _ ls) = Inr ls"
| "layers_of (Tree _ ls _ _) = Inr ls"
| "layers_of (MergeBroadcast _ ls _ _ _) = Inr ls"
| "layers_of (MergeMultistream _ ls _ _ _) = Inr ls"
| "layers_of (ResidualModule _ ls _) = Inr ls"
| "layers_of _ = Inl AttributeError"

text \<open>
  \<^verbatim>\<open>x.owns_output\<close>. A leaf has the value its class gave it; ResidualModule and
  MergeBroadcast set it to True in \<^verbatim>\<open>__init__\<close>; Sequential and Tree keep the value
  the Layer base class (not in this module) assigns, the parameter \<open>base\<close>.
\<close>

fun owns_output :: "bool \<Rightarrow> pyobj \<Rightarrow> error + bool" where
  "owns_output base (Leaf _ _ b _ _) = Inr b"
| "owns_output base (Sequential _ _) = Inr base"
| "owns_output base (Tree _ _ _ _) = Inr base"
| "owns_output base (MergeBroadcast _ _ _ _ _) = Inr True"
| "owns_output base (MergeMultistream _ _ _ _ _) = Inr True"
| "owns_output base (ResidualModule _ _ _) = Inr True"
| "owns_output base _ = Inl AttributeError"

subsection \<open>flatten\<close>

text \<open>
  \<^verbatim>\<open>
  def flatten(item):
      if hasattr(item, '__iter__'):
          for i in iter(item):
              for j in flatten(i):
                  yield j
      else:
          yield item
  \<close>
  Lists and tuples have \<^verbatim>\<open>__iter__\<close>; layers, containers and atoms do not. The
  generator is consumed whole by its one caller, so it is modelled by the list it yields.
\<close>

fun flatten :: "pyobj \<Rightarrow> pyobj list" where
  "flatten (PyList xs) = concat (map flatten xs)"
| "flatten (PyTuple xs) = concat (map flatten xs)"
| "flatten x = [x]"

subsection \<open>Sequential.__init__\<close>

text \<open>
  \<^verbatim>\<open>
  self.layers = [l for l in flatten(layers)]
  self._layers = filter(lambda x: type(x) not in (BranchNode,), self.layers)
  root = self._layers[0]
  assert (root.owns_output or
          type(root) in [Dropout, DataTransform]), "Sequential root must own outputs"
  \<close>
  \<open>_layers\<close> is a function of \<open>layers\<close> and is recomputed where it is read. The
  constructor takes the handle of the object being created. The local \<^verbatim>\<open>root\<close> is
  called \<open>first\<close> here.
\<close>

definition private_layers :: "pyobj list \<Rightarrow> pyobj list" where
  "private_layers ls = filter (\<lambda>x. type_of x \<noteq> TLeaf BranchNode) ls"

definition Sequential_init :: "bool \<Rightarrow> nat \<Rightarrow> pyobj \<Rightarrow> error + pyobj" where
  "Sequential_init base i layers =
     (let ls = flatten layers in
      case private_layers ls of
        [] \<Rightarrow> Inl IndexError
      | first # _ \<Rightarrow>
          (case owns_output base first of
             Inl e \<Rightarrow> Inl e
           | Inr own \<Rightarrow>
               if own \<or> type_of first \<in> {TLeaf Dropout, TLeaf DataTransform}
               then Inr (Sequential i ls) else Inl AssertionError))"

subsection \<open>Tree.__init__\<close>

text \<open>
  The loop that turns the constructor's elements into branches, found word for word in
  \<^verbatim>\<open>Tree.__init__\<close> and in \<^verbatim>\<open>MergeBroadcast.__init__\<close>:
  \<^verbatim>\<open>
  self.layers = []
  for l in layers:
      if isinstance(l, Sequential):
          self.layers.append(l)
      elif isinstance(l, list):
          self.layers.append(Sequential(l))
      elif isinstance(l, Layer):
          self.layers.append(Sequential([l]))
      else:
          ValueError("Incompatible element for Tree container")
  \<close>
  The last branch evaluates a constructor call and drops its value: there is no
  \<^verbatim>\<open>raise\<close>. \<open>n\<close> is the next free handle; every new Sequential takes one.
\<close>

fun branch_loop :: "bool \<Rightarrow> pyobj list \<Rightarrow> pyobj list \<Rightarrow> nat \<Rightarrow> error + (pyobj list \<times> nat)" where
  "branch_loop base [] acc n = Inr (acc, n)"
| "branch_loop base (l # ls) acc n =
     (if isinstance_Sequential l then branch_loop base ls (acc @ [l]) n
      else if isinstance_list l then
        (case Sequential_init base n l of
           Inl e \<Rightarrow> Inl e
         | Inr s \<Rightarrow> branch_loop base ls (acc @ [s]) (Suc n))
      else if isinstance_Layer l then
        (case Sequential_init base n (PyList [l]) of
           Inl e \<Rightarrow> Inl e
         | Inr s \<Rightarrow> branch_loop base ls (acc @ [s]) (Suc n))
      else branch_loop base ls acc n)"

text \<open>
  \<^verbatim>\<open>
  self.alphas = [1.0 for _ in self.layers] if alphas is None else alphas
  self.betas = []
  next_root = None
  for l in reversed(self.layers):
      root = l.layers[0]
      beta = 1.0 if (root is next_root or type(root) is not BranchNode) else 0.0
      next_root = root
      self.betas.append(beta)
  self.betas.reverse()
  \<close>
  \<open>betas_loop\<close> is the \<^verbatim>\<open>for\<close> loop, called on the reversed branch list.
\<close>

fun betas_loop :: "pyobj list \<Rightarrow> pyobj option \<Rightarrow> real list \<Rightarrow> error + real list" where
  "betas_loop [] next_root betas = Inr betas"
| "betas_loop (l # ls) next_root betas =
     (case layers_of l of
        Inl e \<Rightarrow> Inl e
      | Inr [] \<Rightarrow> Inl IndexError
      | Inr (r # _) \<Rightarrow>
          (let beta = (if is_obj r next_root \<or> type_of r \<noteq> TLeaf BranchNode then 1 else 0)
           in betas_loop ls (Some r) (betas @ [beta])))"

definition default_alphas :: "real list option \<Rightarrow> pyobj list \<Rightarrow> real list" where
  "default_alphas alphas ls = (case alphas of None \<Rightarrow> map (\<lambda>_. 1) ls | Some a \<Rightarrow> a)"

text \<open>
  The Tree object takes the handle \<open>n\<close>, the Sequentials it creates the ones after it;
  the result is the object and the next free handle.
\<close>

definition Tree_init :: "bool \<Rightarrow> nat \<Rightarrow> pyobj list \<Rightarrow> real list option \<Rightarrow> error + (pyobj \<times> nat)" where
  "Tree_init base n layers alphas =
     (case branch_loop base layers [] (Suc n) of
        Inl e \<Rightarrow> Inl e
      | Inr (ls, n') \<Rightarrow>
          (case betas_loop (rev ls) None [] of
             Inl e \<Rightarrow> Inl e
           | Inr betas \<Rightarrow> Inr (Tree n ls (default_alphas alphas ls) (rev betas), n')))"

subsection \<open>MergeBroadcast.__init__ and MergeMultistream.__init__\<close>

text \<open>
  After the same loop:
  \<^verbatim>\<open>
  self.betas = [1.0 for _ in self.layers]
  self.betas[-1] = 0.0
  self.alphas = [1.0 for _ in self.layers] if alphas is None else alphas
  self.merge = merge
  assert self.merge in ("recurrent", "depth", "stack")
  \<close>
  The assignment to \<^verbatim>\<open>betas[-1]\<close> raises IndexError on the empty list.
\<close>

definition merge_attrs ::
  "pyobj list \<Rightarrow> string \<Rightarrow> real list option \<Rightarrow> error + (real list \<times> real list)" where
  "merge_attrs ls merge alphas =
     (if ls = [] then Inl IndexError
      else if merge \<in> {''recurrent'', ''depth'', ''stack''}
      then Inr ((map (\<lambda>_. 1) ls)[length ls - 1 := 0], default_alphas alphas ls)
      else Inl AssertionError)"

definition MergeBroadcast_init ::
  "bool \<Rightarrow> nat \<Rightarrow> pyobj list \<Rightarrow> string \<Rightarrow> real list option \<Rightarrow> error + (pyobj \<times> nat)" where
  "MergeBroadcast_init base n layers merge alphas =
     (case branch_loop base layers [] (Suc n) of
        Inl e \<Rightarrow> Inl e
      | Inr (ls, n') \<Rightarrow>
          (case merge_attrs ls merge alphas of
             Inl e \<Rightarrow> Inl e
           | Inr (betas, al) \<Rightarrow> Inr (MergeBroadcast n ls betas al merge, n')))"

text \<open>
  \<^verbatim>\<open>super(MergeMultistream, self).__init__(layers, merge=merge, name=name)\<close>: the
  same constructor with \<^verbatim>\<open>alphas=None\<close>, on an object of the subclass.
\<close>

definition MergeMultistream_init ::
  "bool \<Rightarrow> nat \<Rightarrow> pyobj list \<Rightarrow> string \<Rightarrow> error + (pyobj \<times> nat)" where
  "MergeMultistream_init base n layers merge =
     (case branch_loop base layers [] (Suc n) of
        Inl e \<Rightarrow> Inl e
      | Inr (ls, n') \<Rightarrow>
          (case merge_attrs ls merge None of
             Inl e \<Rightarrow> Inl e
           | Inr (betas, al) \<Rightarrow> Inr (MergeMultistream n ls betas al merge, n')))"

subsection \<open>ResidualModule.__init__\<close>




subsection \<open>Depth-first traversal, as the specification words it\<close>

text \<open>
  The specification's reading of the flattened order: the depth-first left-to-right
  traversal of the nested structure. It is written down independently of the generator,
  as the usual traversal with an explicit stack of the nodes still to visit: the node on
  top is visited first; a leaf is emitted, an inner node is replaced by its children in
  their order.
\<close>

fun nodes :: "pyobj \<Rightarrow> nat" and nodes_list :: "pyobj list \<Rightarrow> nat" where
  "nodes (PyList xs) = Suc (nodes_list xs)"
| "nodes (PyTuple xs) = Suc (nodes_list xs)"
| "nodes x = 1"
| "nodes_list [] = 0"
| "nodes_list (x # xs) = nodes x + nodes_list xs"

function dfs_left_to_right :: "pyobj list \<Rightarrow> pyobj list" where
  "dfs_left_to_right [] = []"
| "dfs_left_to_right (x # stack) =
     (case x of
        PyList xs \<Rightarrow> dfs_left_to_right (xs @ stack)
      | PyTuple xs \<Rightarrow> dfs_left_to_right (xs @ stack)
      | _ \<Rightarrow> x # dfs_left_to_right stack)"
  by pat_completeness auto

lemma nodes_list_append: "nodes_list (xs @ ys) = nodes_list xs + nodes_list ys"
  by (induction xs) simp_all

termination dfs_left_to_right
  by (relation "measure nodes_list") (simp_all add: nodes_list_append)

text \<open>Nesting depth: an object that is not iterable has depth 0, a flat list depth 1.\<close>

fun depth :: "pyobj \<Rightarrow> nat" where
  "depth (PyList xs) = Suc (fold max (map depth xs) 0)"
| "depth (PyTuple xs) = Suc (fold max (map depth xs) 0)"
| "depth x = 0"

section \<open>Notions the statements use\<close>

subsection \<open>Elements a Tree or MergeBroadcast has a branch for\<close>

text \<open>
  An element is compatible when one of the three \<^verbatim>\<open>isinstance\<close> tests of the
  constructor loop accepts it: a Sequential, a list or a Layer.
\<close>

definition compatible :: "pyobj \<Rightarrow> bool" where
  "compatible l = (isinstance_Sequential l \<or> isinstance_list l \<or> isinstance_Layer l)"

subsection \<open>Objects of a class itself\<close>



subsection \<open>Roots and writers of a Tree\<close>

text \<open>
  The root of a branch is \<^verbatim>\<open>l.layers[0]\<close>; two roots are the same instance when
  \<^verbatim>\<open>is\<close> holds of them. For a root \<open>r\<close>, the branches that share it are counted
  three ways: those with beta 0.0 (they initialise the buffer of \<open>r\<close>), those with
  beta 1.0 (they accumulate into it), and all of them.
\<close>

definition same_instance :: "pyobj \<Rightarrow> pyobj \<Rightarrow> bool" where
  "same_instance a b = is_obj a (Some b)"

definition roots_of :: "pyobj list \<Rightarrow> pyobj list" where
  "roots_of ls = concat (map (\<lambda>l. case layers_of l of Inr (r # _) \<Rightarrow> [r] | _ \<Rightarrow> []) ls)"

definition initializers :: "pyobj \<Rightarrow> pyobj list \<Rightarrow> real list \<Rightarrow> nat" where
  "initializers r rs bs = length (filter (\<lambda>(x, b). same_instance x r \<and> b = 0) (zip rs bs))"

definition accumulators :: "pyobj \<Rightarrow> pyobj list \<Rightarrow> real list \<Rightarrow> nat" where
  "accumulators r rs bs = length (filter (\<lambda>(x, b). same_instance x r \<and> b = 1) (zip rs bs))"

definition sharers :: "pyobj \<Rightarrow> pyobj list \<Rightarrow> nat" where
  "sharers r rs = length (filter (\<lambda>x. same_instance x r) rs)"

text \<open>
  The order the docstring of Tree asks for (``the auxiliary branches in the order the
  branch nodes are encountered''): the branches of one BranchNode stand next to each
  other, so a BranchNode root that differs from the next root does not come back later.
  Roots that are not BranchNodes are not constrained.
\<close>

fun grouped :: "pyobj list \<Rightarrow> bool" where
  "grouped [] = True"
| "grouped [r] = True"
| "grouped (r # r' # rs) =
     ((type_of r \<noteq> TLeaf BranchNode \<or> same_instance r r' \<or>
       list_all (\<lambda>x. \<not> same_instance r x) (r' # rs)) \<and> grouped (r' # rs))"

text \<open>
  A later branch with the same root: some branch after the \<open>k\<close>-th has the root
  instance of the \<open>k\<close>-th. The last branch of a root is the one without.
\<close>

definition later_same_root :: "pyobj list \<Rightarrow> nat \<Rightarrow> bool" where
  "later_same_root rs k = list_ex (\<lambda>x. same_instance x (rs ! k)) (drop (Suc k) rs)"

text \<open>
  A handle is the identity of one object: two objects of a list with the same handle
  are the same object. Every list of objects a Python program holds is of this kind.
\<close>

definition handles_identify :: "pyobj list \<Rightarrow> bool" where
  "handles_identify rs = list_all (\<lambda>a. list_all (\<lambda>b. oid a = oid b \<longrightarrow> a = b) rs) rs"

subsection \<open>The betas, branch by branch\<close>

text \<open>
  Three functions for the proofs: the beta of one branch given the root after it, the
  betas in loop order (last branch first), and the betas in branch order.
\<close>

definition beta_of :: "pyobj \<Rightarrow> pyobj option \<Rightarrow> real" where
  "beta_of r next_root = (if is_obj r next_root \<or> type_of r \<noteq> TLeaf BranchNode then 1 else 0)"

fun bseq :: "pyobj list \<Rightarrow> pyobj option \<Rightarrow> real list" where
  "bseq [] nr = []"
| "bseq (r # rs) nr = beta_of r nr # bseq rs (Some r)"

fun fbetas :: "pyobj list \<Rightarrow> real list" where
  "fbetas [] = []"
| "fbetas [r] = [beta_of r None]"
| "fbetas (r # r' # rs) = beta_of r (Some r') # fbetas (r' # rs)"

section \<open>MergeBroadcast: merge shapes and partitions\<close>

text \<open>
  A shape is an int or a tuple of ints. The shapes of the sub-paths
  (\<^verbatim>\<open>[l.out_shape for l in self.layers]\<close>) are set when the sub-paths are configured, by
  code outside this module; \<^verbatim>\<open>_configure_merge\<close> is modelled as a function of them, of
  \<^verbatim>\<open>self.merge\<close> and of the batch size \<^verbatim>\<open>self.be.bsz\<close>. The integers of numpy
  (\<^verbatim>\<open>np.prod\<close>, \<^verbatim>\<open>np.cumsum\<close>) are modelled by \<open>int\<close>; \<^verbatim>\<open>np.prod\<close> of the empty
  tuple is the number one.
\<close>

datatype shape = ShapeInt int | ShapeTuple "int list"

text \<open>\<^verbatim>\<open>xs[i]\<close> and \<^verbatim>\<open>xs[1:]\<close> on a shape; an int cannot be subscripted.\<close>

fun shape_getitem :: "shape \<Rightarrow> nat \<Rightarrow> error + int" where
  "shape_getitem (ShapeInt _) i = Inl TypeError"
| "shape_getitem (ShapeTuple ds) i = (if i < length ds then Inr (ds ! i) else Inl IndexError)"

fun shape_tail :: "shape \<Rightarrow> error + int list" where
  "shape_tail (ShapeInt _) = Inl TypeError"
| "shape_tail (ShapeTuple ds) = Inr (tl ds)"

text \<open>A list comprehension whose element expression may raise.\<close>

fun comprehension :: "('a \<Rightarrow> error + 'b) \<Rightarrow> 'a list \<Rightarrow> error + 'b list" where
  "comprehension f [] = Inr []"
| "comprehension f (x # xs) =
     (case f x of
        Inl e \<Rightarrow> Inl e
      | Inr y \<Rightarrow> (case comprehension f xs of Inl e \<Rightarrow> Inl e | Inr ys \<Rightarrow> Inr (y # ys)))"

text \<open>\<^verbatim>\<open>np.cumsum\<close>: the running sums.\<close>

fun cumsum_from :: "int \<Rightarrow> int list \<Rightarrow> int list" where
  "cumsum_from a [] = []"
| "cumsum_from a (x # xs) = (a + x) # cumsum_from (a + x) xs"

definition cumsum :: "int list \<Rightarrow> int list" where
  "cumsum xs = cumsum_from 0 xs"

text \<open>
  \<^verbatim>\<open>
  end_idx = [idx * stride_size for idx in np.cumsum(catdims)]
  start_idx = [0] + end_idx[:-1]
  self.slices = [slice(s, e) for s, e in zip(start_idx, end_idx)]
  \<close>
  A slice is the pair of its start and its stop.
\<close>

definition make_slices :: "int list \<Rightarrow> int \<Rightarrow> (int \<times> int) list" where
  "make_slices catdims stride_size =
     (let end_idx = map (\<lambda>idx. idx * stride_size) (cumsum catdims);
          start_idx = [0] @ butlast end_idx
      in zip start_idx end_idx)"

text \<open>
  \<^verbatim>\<open>
  in_shapes = [l.out_shape for l in self.layers]
  if self.merge == "recurrent":
      catdims = [xs[1] for xs in in_shapes]
      self.out_shape = (in_shapes[0][0], sum(catdims))
      stride_size = self.be.bsz
  elif self.merge == "depth":
      catdims = [xs[0] for xs in in_shapes]
      self.out_shape = (sum(catdims),) + in_shapes[0][1:]
      stride_size = np.prod(in_shapes[0][1:])
  elif self.merge == "stack":
      catdims = [xs if isinstance(xs, int) else np.prod(xs) for xs in in_shapes]
      self.out_shape = sum(catdims)
      stride_size = 1
  \<close>
  The result is the pair of \<^verbatim>\<open>self.out_shape\<close> and \<^verbatim>\<open>self.slices\<close>. With any other
  merge mode no branch assigns \<^verbatim>\<open>catdims\<close> and reading it raises NameError.
\<close>

definition configure_merge ::
  "string \<Rightarrow> int \<Rightarrow> shape list \<Rightarrow> error + (shape \<times> (int \<times> int) list)" where
  "configure_merge merge bsz in_shapes =
     (if merge = ''recurrent'' then
        (case comprehension (\<lambda>xs. shape_getitem xs 1) in_shapes of
           Inl e \<Rightarrow> Inl e
         | Inr catdims \<Rightarrow>
             (case in_shapes of
                [] \<Rightarrow> Inl IndexError
              | s0 # _ \<Rightarrow>
                  (case shape_getitem s0 0 of
                     Inl e \<Rightarrow> Inl e
                   | Inr d0 \<Rightarrow>
                       Inr (ShapeTuple [d0, sum_list catdims], make_slices catdims bsz))))
      else if merge = ''depth'' then
        (case comprehension (\<lambda>xs. shape_getitem xs 0) in_shapes of
           Inl e \<Rightarrow> Inl e
         | Inr catdims \<Rightarrow>
             (case in_shapes of
                [] \<Rightarrow> Inl IndexError
              | s0 # _ \<Rightarrow>
                  (case shape_tail s0 of
                     Inl e \<Rightarrow> Inl e
                   | Inr trailing \<Rightarrow>
                       Inr (ShapeTuple ([sum_list catdims] @ trailing),
                            make_slices catdims (prod_list trailing)))))
      else if merge = ''stack'' then
        (let catdims = map (\<lambda>xs. case xs of ShapeInt k \<Rightarrow> k | ShapeTuple ds \<Rightarrow> prod_list ds)
                           in_shapes
         in Inr (ShapeInt (sum_list catdims), make_slices catdims 1))
      else Inl NameError)"

subsection \<open>Tensors as views, get_partitions\<close>

text \<open>
  A backend tensor is two-dimensional. Slicing returns a view that aliases the memory of
  the tensor sliced, so a tensor is modelled by the region it addresses: the rows
  \<open>row_lo \<le> i < row_hi\<close> and the columns \<open>col_lo \<le> j < col_hi\<close> of the buffer with handle \<open>buffer\<close>.
\<close>

record tensor =
  buffer :: nat
  row_lo :: int
  row_hi :: int
  col_lo :: int
  col_hi :: int

definition nrows :: "tensor \<Rightarrow> int" where
  "nrows x = row_hi x - row_lo x"

definition ncols :: "tensor \<Rightarrow> int" where
  "ncols x = col_hi x - col_lo x"

text \<open>
  Python's reading of \<^verbatim>\<open>slice(s, e)\<close> on an axis of length \<open>n\<close>
  (\<^verbatim>\<open>slice.indices\<close>): a negative bound counts from the end, every bound is clipped
  to the axis, and a stop before the start selects nothing.
\<close>

definition clip :: "int \<Rightarrow> int \<Rightarrow> int" where
  "clip n i = (if i < 0 then max 0 (i + n) else min i n)"

definition slice_indices :: "int \<Rightarrow> int \<times> int \<Rightarrow> int \<times> int" where
  "slice_indices n sl = (let s = clip n (fst sl); e = clip n (snd sl) in (s, max s e))"

text \<open>\<^verbatim>\<open>x[sl]\<close> selects rows, \<^verbatim>\<open>x[:, sl]\<close> selects columns.\<close>

definition slice_rows :: "tensor \<Rightarrow> int \<times> int \<Rightarrow> tensor" where
  "slice_rows x sl =
     (let (s, e) = slice_indices (nrows x) sl
      in x\<lparr>row_lo := row_lo x + s, row_hi := row_lo x + e\<rparr>)"

definition slice_cols :: "tensor \<Rightarrow> int \<times> int \<Rightarrow> tensor" where
  "slice_cols x sl =
     (let (s, e) = slice_indices (ncols x) sl
      in x\<lparr>col_lo := col_lo x + s, col_hi := col_lo x + e\<rparr>)"

text \<open>
  \<^verbatim>\<open>
  if x.shape[-1] != self.be.bsz:  # This is the sequential case
      return [x[:, sl] for sl in slices]
  else:
      return [x[sl] for sl in slices]
  \<close>
\<close>

definition get_partitions :: "int \<Rightarrow> tensor \<Rightarrow> (int \<times> int) list \<Rightarrow> tensor list" where
  "get_partitions bsz x slices =
     (if ncols x \<noteq> bsz then map (slice_cols x) slices else map (slice_rows x) slices)"

section \<open>Propagation\<close>

text \<open>
  The values that flow through \<^verbatim>\<open>fprop\<close>, \<^verbatim>\<open>bprop\<close> and \<^verbatim>\<open>get_cost\<close>: None, a
  tensor, or a list or a tuple of values.
\<close>

datatype pyval = VNone | VTensor tensor | VList "pyval list" | VTuple "pyval list"

text \<open>
  The state the methods work on: the contents of the buffers (\<open>mem b i j\<close> is the number
  at row \<open>i\<close> and column \<open>j\<close> of the buffer with handle \<open>b\<close>; the floats of the backend
  are modelled by real numbers) and the attributes of the layer objects that the methods
  of this module read or assign, each a map from the handle of the object. The record is
  extensible: whatever else the layers of neon.layers.layer keep (weights, masks) lives in
  its extension.
\<close>

record state =
  mem :: "nat \<Rightarrow> int \<Rightarrow> int \<Rightarrow> real"
  outputs_attr :: "nat \<Rightarrow> tensor option"
  deltas_attr :: "nat \<Rightarrow> tensor option"
  inputs_attr :: "nat \<Rightarrow> pyval option"
  in_shape_attr :: "nat \<Rightarrow> shape option"
  out_shape_attr :: "nat \<Rightarrow> shape option"
  prev_layer_attr :: "nat \<Rightarrow> pyobj option"
  global_deltas_attr :: "nat \<Rightarrow> tensor list option"
  next_buffer :: nat






subsection \<open>Sequential.fprop\<close>

text \<open>
  \<^verbatim>\<open>
  def fprop(self, inputs, inference=False):
      x = inputs
      for l in self.layers:
          x = l.fprop(x, inference)
      return x
  \<close>
  The \<^verbatim>\<open>fprop\<close> of a child is the parameter \<open>lf\<close>: it is called with the child, the
  input, the inference flag, the keyword argument \<^verbatim>\<open>beta\<close> when the call passes one,
  and the state; it returns a value and the new state, or raises.
\<close>

type_synonym 's fprop_method = "pyobj \<Rightarrow> pyval \<Rightarrow> bool \<Rightarrow> real option \<Rightarrow> 's \<Rightarrow> error + (pyval \<times> 's)"

fun fprop_loop :: "'s fprop_method \<Rightarrow> pyobj list \<Rightarrow> pyval \<Rightarrow> bool \<Rightarrow> 's \<Rightarrow> error + (pyval \<times> 's)" where
  "fprop_loop lf [] x inference s = Inr (x, s)"
| "fprop_loop lf (l # ls) x inference s =
     (case lf l x inference None s of
        Inl e \<Rightarrow> Inl e
      | Inr (y, s') \<Rightarrow> fprop_loop lf ls y inference s')"

text \<open>
  \<^verbatim>\<open>b.fprop(inputs, inference)\<close> for a branch \<open>b\<close> of a Tree or the trunk of a
  ResidualModule. The constructors make every branch a Sequential, whose method is the
  loop above; an object of another class answers with its own method.
\<close>

fun Sequential_fprop :: "'s fprop_method \<Rightarrow> pyobj \<Rightarrow> pyval \<Rightarrow> bool \<Rightarrow> 's \<Rightarrow> error + (pyval \<times> 's)" where
  "Sequential_fprop lf (Sequential i ls) inputs inference s = fprop_loop lf ls inputs inference s"
| "Sequential_fprop lf l inputs inference s = lf l inputs inference None s"

subsection \<open>Tree.fprop\<close>

text \<open>
  \<^verbatim>\<open>
  def fprop(self, inputs, inference=False):
      x = self.layers[0].fprop(inputs, inference)
      if inference:
          return x
      else:
          out = [x] + [l.fprop(None) for l in self.layers[1:]]
          return out
  \<close>
  \<open>fprop_None\<close> is the list comprehension: each auxiliary branch is called with None
  and the default \<^verbatim>\<open>inference=False\<close>, one after the other.
\<close>

fun fprop_None :: "'s fprop_method \<Rightarrow> pyobj list \<Rightarrow> 's \<Rightarrow> error + (pyval list \<times> 's)" where
  "fprop_None lf [] s = Inr ([], s)"
| "fprop_None lf (l # ls) s =
     (case Sequential_fprop lf l VNone False s of
        Inl e \<Rightarrow> Inl e
      | Inr (y, s') \<Rightarrow>
          (case fprop_None lf ls s' of
             Inl e \<Rightarrow> Inl e
           | Inr (ys, s'') \<Rightarrow> Inr (y # ys, s'')))"

definition Tree_fprop :: "'s fprop_method \<Rightarrow> pyobj \<Rightarrow> pyval \<Rightarrow> bool \<Rightarrow> 's \<Rightarrow> error + (pyval \<times> 's)" where
  "Tree_fprop lf self inputs inference s =
     (case layers_of self of
        Inl e \<Rightarrow> Inl e
      | Inr [] \<Rightarrow> Inl IndexError
      | Inr (trunk # aux) \<Rightarrow>
          (case Sequential_fprop lf trunk inputs inference s of
             Inl e \<Rightarrow> Inl e
           | Inr (x, s') \<Rightarrow>
               if inference then Inr (x, s')
               else (case fprop_None lf aux s' of
                       Inl e \<Rightarrow> Inl e
                     | Inr (out, s'') \<Rightarrow> Inr (VList ([x] @ out), s''))))"

subsection \<open>ResidualModule.fprop\<close>


subsection \<open>Sequential.bprop\<close>





subsection \<open>ResidualModule.bprop\<close>




section \<open>Buffers\<close>

subsection \<open>The backend's buffers\<close>

text \<open>
  Modelled from the spec: \<^verbatim>\<open>self.be.iobuf\<close>, the allocation primitive of the compute
  backend, which is not part of this module (``buffer allocation given a shape and optional
  shared/aliased buffer''). Without \<^verbatim>\<open>shared\<close> it returns a tensor over a new buffer,
  with one row per element of the shape and one column per sample of the batch; with
  \<^verbatim>\<open>shared\<close> it returns a view of that size at the start of the shared tensor, a borrowed
  view and not a copy.
\<close>

definition volume :: "shape \<Rightarrow> int" where
  "volume sh = (case sh of ShapeInt k \<Rightarrow> k | ShapeTuple ds \<Rightarrow> prod_list ds)"

definition iobuf :: "int \<Rightarrow> shape \<Rightarrow> 'z state_scheme \<Rightarrow> tensor \<times> 'z state_scheme" where
  "iobuf bsz dim0 s =
     (\<lparr>buffer = next_buffer s, row_lo = 0, row_hi = volume dim0, col_lo = 0, col_hi = bsz\<rparr>,
      s\<lparr>next_buffer := Suc (next_buffer s)\<rparr>)"

definition iobuf_shared :: "int \<Rightarrow> shape \<Rightarrow> tensor \<Rightarrow> tensor" where
  "iobuf_shared bsz dim0 shared =
     shared\<lparr>row_hi := row_lo shared + volume dim0, col_hi := col_lo shared + bsz\<rparr>"

subsection \<open>Sequential.allocate and ResidualModule.allocate\<close>






subsection \<open>Sequential.allocate_deltas\<close>

text \<open>
  \<^verbatim>\<open>
  def allocate_deltas(self, global_deltas=None):
      def needs_extra_delta(ll):
          return True if type(ll) in (MergeBroadcast, ResidualModule) else False

      if not global_deltas:
          # See if we have any inception-ish layers:
          ndelta_bufs = 4 if any([needs_extra_delta(l) for l in self.layers]) else 2
          in_sizes = [np.prod(l.in_shape) for l in self.layers[1:]]
          if in_sizes:
              self.global_deltas = [self.be.iobuf(
                  max(in_sizes), parallelism="Data") for _ in range(ndelta_bufs)]
          else:
              self.global_deltas = None
      else:
          self.global_deltas = global_deltas

      for l in self.layers:
          l.set_deltas(self.global_deltas)
  \<close>
  \<open>new_global_deltas\<close> is the \<^verbatim>\<open>if\<close> statement: its value is what is assigned to
  \<^verbatim>\<open>self.global_deltas\<close>. None and the empty list are the two arguments that
  \<^verbatim>\<open>not global_deltas\<close> accepts. An object whose \<^verbatim>\<open>in_shape\<close> was never set has no
  such attribute.
\<close>

definition needs_extra_delta :: "pyobj \<Rightarrow> bool" where
  "needs_extra_delta ll = (type_of ll \<in> {TMergeBroadcast, TResidualModule})"

definition in_size :: "'z state_scheme \<Rightarrow> pyobj \<Rightarrow> error + int" where
  "in_size s l =
     (case oid l of
        None \<Rightarrow> Inl AttributeError
      | Some h \<Rightarrow>
          (case in_shape_attr s h of
             None \<Rightarrow> Inl AttributeError
           | Some sh \<Rightarrow> Inr (volume sh)))"

fun iobufs :: "int \<Rightarrow> int \<Rightarrow> nat \<Rightarrow> 'z state_scheme \<Rightarrow> tensor list \<times> 'z state_scheme" where
  "iobufs bsz sz 0 s = ([], s)"
| "iobufs bsz sz (Suc k) s =
     (let (t, s') = iobuf bsz (ShapeInt sz) s;
          (ts, s'') = iobufs bsz sz k s'
      in (t # ts, s''))"

definition max_of :: "int list \<Rightarrow> int" where
  "max_of xs = fold max (tl xs) (hd xs)"

definition new_global_deltas ::
  "int \<Rightarrow> pyobj list \<Rightarrow> tensor list option \<Rightarrow> 'z state_scheme \<Rightarrow>
     error + (tensor list option \<times> 'z state_scheme)" where
  "new_global_deltas bsz layers global_deltas s =
     (if global_deltas = None \<or> global_deltas = Some [] then
        (let ndelta_bufs = (if list_ex needs_extra_delta layers then 4 else 2) in
         case comprehension (in_size s) (tl layers) of
           Inl e \<Rightarrow> Inl e
         | Inr in_sizes \<Rightarrow>
             if in_sizes \<noteq> [] then
               (let (bufs, s') = iobufs bsz (max_of in_sizes) ndelta_bufs s
                in Inr (Some bufs, s'))
             else Inr (None, s))
      else Inr (global_deltas, s))"

text \<open>
  The \<^verbatim>\<open>set_deltas\<close> of a child is the parameter \<open>lsd\<close>. It receives the pool, a list
  object that it may change in place (\<^verbatim>\<open>delta_buffers.reverse()\<close>), so it returns the
  list as it left it together with the new state.
\<close>

type_synonym 's set_deltas_method =
  "pyobj \<Rightarrow> tensor list option \<Rightarrow> 's \<Rightarrow> error + (tensor list option \<times> 's)"

fun set_deltas_loop ::
  "'s set_deltas_method \<Rightarrow> pyobj list \<Rightarrow> tensor list option \<Rightarrow> 's \<Rightarrow>
     error + (tensor list option \<times> 's)" where
  "set_deltas_loop lsd [] pool s = Inr (pool, s)"
| "set_deltas_loop lsd (l # ls) pool s =
     (case lsd l pool s of
        Inl e \<Rightarrow> Inl e
      | Inr (pool', s') \<Rightarrow> set_deltas_loop lsd ls pool' s')"

fun Sequential_allocate_deltas ::
  "'z state_scheme set_deltas_method \<Rightarrow> int \<Rightarrow> pyobj \<Rightarrow> tensor list option \<Rightarrow>
     'z state_scheme \<Rightarrow> error + (tensor list option \<times> 'z state_scheme)" where
  "Sequential_allocate_deltas lsd bsz (Sequential i ls) global_deltas s =
     (case new_global_deltas bsz ls global_deltas s of
        Inl e \<Rightarrow> Inl e
      | Inr (pool, s1) \<Rightarrow>
          (case set_deltas_loop lsd ls pool s1 of
             Inl e \<Rightarrow> Inl e
           | Inr (pool', s2) \<Rightarrow>
               Inr (pool', s2\<lparr>global_deltas_attr := (global_deltas_attr s2)(i := pool')\<rparr>)))"
| "Sequential_allocate_deltas lsd bsz l global_deltas s = Inl AttributeError"

subsection \<open>ResidualModule.set_deltas\<close>

text \<open>
  \<^verbatim>\<open>
  def set_deltas(self, delta_buffers):
      assert len(delta_buffers) == 4, "Need extra delta buffer pool for residual layers"
      self.layers[0].allocate_deltas(delta_buffers[1:3])
      self.layers[0].layers[0].set_deltas(delta_buffers[0:1])
      if self.skip_layer is not None:
          self.skip_layer.set_deltas(delta_buffers[0:1])
      self.deltas = self.be.iobuf(self.in_shape, shared=delta_buffers[0])
      delta_buffers.reverse()
  \<close>
  The slices \<^verbatim>\<open>delta_buffers[1:3]\<close> and \<^verbatim>\<open>delta_buffers[0:1]\<close> are new lists: what
  the callees do to them does not reach \<^verbatim>\<open>delta_buffers\<close>. \<^verbatim>\<open>len(None)\<close> is a
  TypeError.
\<close>

definition first_layer :: "pyobj \<Rightarrow> error + pyobj" where
  "first_layer l =
     (case layers_of l of
        Inl e \<Rightarrow> Inl e
      | Inr [] \<Rightarrow> Inl IndexError
      | Inr (r # _) \<Rightarrow> Inr r)"



subsection \<open>MergeBroadcast.set_deltas\<close>

text \<open>
  \<^verbatim>\<open>
  def set_deltas(self, delta_buffers):
      assert len(delta_buffers) == 4, "Need extra delta buffer pool for merge broadcast layers"
      for l in self.layers:
          l.allocate_deltas(delta_buffers[1:3])
          l.layers[0].set_deltas(delta_buffers[0:1])

      # Special case if originating from a branch node
      if type(self.prev_layer) is BranchNode:
          self.deltas = self.be.iobuf(self.in_shape, shared=self.prev_layer.deltas)
      else:
          self.deltas = self.be.iobuf(self.in_shape, shared=delta_buffers[0])
          delta_buffers.reverse()
  \<close>
  Sharing with a \<^verbatim>\<open>prev_layer.deltas\<close> that is None allocates a buffer of the module's
  own, as \<^verbatim>\<open>shared=None\<close> does.
\<close>

fun branch_deltas_loop ::
  "'z state_scheme set_deltas_method \<Rightarrow> int \<Rightarrow> pyobj list \<Rightarrow> tensor list \<Rightarrow>
     'z state_scheme \<Rightarrow> error + 'z state_scheme" where
  "branch_deltas_loop lsd bsz [] bufs s = Inr s"
| "branch_deltas_loop lsd bsz (l # ls) bufs s =
     (case Sequential_allocate_deltas lsd bsz l (Some (take 2 (drop 1 bufs))) s of
        Inl e \<Rightarrow> Inl e
      | Inr (_, s1) \<Rightarrow>
          (case first_layer l of
             Inl e \<Rightarrow> Inl e
           | Inr l0 \<Rightarrow>
               (case lsd l0 (Some (take 1 bufs)) s1 of
                  Inl e \<Rightarrow> Inl e
                | Inr (_, s2) \<Rightarrow> branch_deltas_loop lsd bsz ls bufs s2)))"

fun MergeBroadcast_set_deltas ::
  "'z state_scheme set_deltas_method \<Rightarrow> int \<Rightarrow> pyobj \<Rightarrow> tensor list option \<Rightarrow>
     'z state_scheme \<Rightarrow> error + (tensor list option \<times> 'z state_scheme)" where
  "MergeBroadcast_set_deltas lsd bsz (MergeBroadcast i ls betas alphas merge) delta_buffers s =
     (case delta_buffers of
        None \<Rightarrow> Inl TypeError
      | Some bufs \<Rightarrow>
          if length bufs \<noteq> 4 then Inl AssertionError
          else
            (case branch_deltas_loop lsd bsz ls bufs s of
               Inl e \<Rightarrow> Inl e
             | Inr s1 \<Rightarrow>
                 (case in_shape_attr s1 i of
                    None \<Rightarrow> Inl AttributeError
                  | Some sh \<Rightarrow>
                      (case prev_layer_attr s1 i of
                         Some (Leaf p BranchNode own k st) \<Rightarrow>
                           (case deltas_attr s1 p of
                              Some d \<Rightarrow>
                                Inr (Some bufs,
                                     s1\<lparr>deltas_attr := (deltas_attr s1)
                                           (i := Some (iobuf_shared bsz sh d))\<rparr>)
                            | None \<Rightarrow>
                                (let (t, s2) = iobuf bsz sh s1
                                 in Inr (Some bufs,
                                         s2\<lparr>deltas_attr := (deltas_attr s2)(i := Some t)\<rparr>)))
                       | _ \<Rightarrow>
                           Inr (Some (rev bufs),
                                s1\<lparr>deltas_attr := (deltas_attr s1)
                                      (i := Some (iobuf_shared bsz sh (bufs ! 0)))\<rparr>)))))"
| "MergeBroadcast_set_deltas lsd bsz self delta_buffers s = Inl AttributeError"

section \<open>Multicost\<close>












section \<open>Layers of neon.layers.layer\<close>

text \<open>
  The methods of this module take the methods of the child layers as parameters. The
  layers of neon.layers.layer are not part of this module; the four methods that follow
  describe them as the specification does, for any forward and backward function of each
  layer. They are used where a statement is about what the layers compute.
\<close>






section \<open>Concrete inputs\<close>

definition nested_example :: pyobj where
  "nested_example =
     PyList [Leaf 1 Convolution True 16 1,
             PyList [Leaf 2 BranchNode False 0 0,
                     PyList [Leaf 3 (LayerClass ''Pooling'') True 0 0],
                     Leaf 4 Dropout False 0 0],
             PyTuple [PyList [], Leaf 5 Convolution True 16 1]]"

text \<open>
  Two BranchNode instances and four branches: the trunk, then auxiliary branches rooted
  at the branch nodes, once with the branches of \<open>branch_node_A\<close> next to each other and
  once with a branch of \<open>branch_node_B\<close> between them.
\<close>

definition branch_node_A :: pyobj where
  "branch_node_A = Leaf 11 BranchNode False 0 0"

definition branch_node_B :: pyobj where
  "branch_node_B = Leaf 13 BranchNode False 0 0"

definition trunk_conv :: pyobj where
  "trunk_conv = Leaf 10 Convolution True 16 1"

definition tree_input_grouped :: "pyobj list" where
  "tree_input_grouped =
     [PyList [trunk_conv],
      PyList [branch_node_A, Leaf 12 Convolution True 16 1],
      PyList [branch_node_A, Leaf 15 Convolution True 16 1],
      PyList [branch_node_B, Leaf 14 Convolution True 16 1]]"

definition tree_input_interleaved :: "pyobj list" where
  "tree_input_interleaved =
     [PyList [trunk_conv],
      PyList [branch_node_A, Leaf 12 Convolution True 16 1],
      PyList [branch_node_B, Leaf 14 Convolution True 16 1],
      PyList [branch_node_A, Leaf 15 Convolution True 16 1]]"

text \<open>The branches the constructor makes of the two inputs.\<close>

definition grouped_branches :: "pyobj list" where
  "grouped_branches =
     [Sequential 1 [trunk_conv],
      Sequential 2 [branch_node_A, Leaf 12 Convolution True 16 1],
      Sequential 3 [branch_node_A, Leaf 15 Convolution True 16 1],
      Sequential 4 [branch_node_B, Leaf 14 Convolution True 16 1]]"

definition interleaved_branches :: "pyobj list" where
  "interleaved_branches =
     [Sequential 1 [trunk_conv],
      Sequential 2 [branch_node_A, Leaf 12 Convolution True 16 1],
      Sequential 3 [branch_node_B, Leaf 14 Convolution True 16 1],
      Sequential 4 [branch_node_A, Leaf 15 Convolution True 16 1]]"

text \<open>
  A Tree over the grouped branches, an input tensor, and a child \<^verbatim>\<open>fprop\<close> that returns
  its input; the state counts the children evaluated.
\<close>

definition counting_fprop :: "nat fprop_method" where
  "counting_fprop l x inference beta s = Inr (x, Suc s)"

definition example_tree :: pyobj where
  "example_tree = Tree 0 grouped_branches [1, 1, 1, 1] [1, 1, 0, 0]"

definition example_input :: tensor where
  "example_input = \<lparr>buffer = 0, row_lo = 0, row_hi = 512, col_lo = 0, col_hi = 32\<rparr>"




















section \<open>Flattening\<close>

lemma dfs_concat: "dfs_left_to_right stack = concat (map flatten stack)"
proof (induction stack rule: dfs_left_to_right.induct)
  case 1
  show ?case by simp
next
  case (2 x stack)
  then show ?case by (cases x) simp_all
qed

lemma Sequential_init_layers:
  assumes "Sequential_init base i nested = Inr s"
  shows "s = Sequential i (flatten nested)"
  using assms unfolding Sequential_init_def
  by (auto simp: Let_def split: list.splits sum.splits if_splits)

lemma Sequential_init_returns:
  assumes "private_layers (flatten nested) = first # rest"
      and "owns_output base first = Inr True \<or>
           (owns_output base first = Inr False \<and>
            type_of first \<in> {TLeaf Dropout, TLeaf DataTransform})"
  shows "Sequential_init base i nested = Inr (Sequential i (flatten nested))"
  using assms unfolding Sequential_init_def by (auto simp: Let_def)

text \<open>
  C6. \<^verbatim>\<open>flatten\<close> yields the depth-first left-to-right traversal of its argument, at
  every nesting depth (so at depth two and more). \<^verbatim>\<open>Sequential(nested)\<close> stores that
  sequence as its \<^verbatim>\<open>layers\<close> whenever it constructs, and it constructs whenever the
  first element of the traversal that is not a BranchNode owns its output or is a Dropout
  or DataTransform.
\<close>

theorem Sequential_layers_depth_first:
  "flatten nested = dfs_left_to_right [nested] \<and>
   (\<forall>s. Sequential_init base i nested = Inr s \<longrightarrow>
        s = Sequential i (dfs_left_to_right [nested]) \<and>
        layers_of s = Inr (dfs_left_to_right [nested])) \<and>
   (\<forall>first rest.
      private_layers (dfs_left_to_right [nested]) = first # rest \<and>
      (owns_output base first = Inr True \<or>
       (owns_output base first = Inr False \<and>
        type_of first \<in> {TLeaf Dropout, TLeaf DataTransform})) \<longrightarrow>
      Sequential_init base i nested = Inr (Sequential i (dfs_left_to_right [nested])))"
proof -
  have f: "flatten nested = dfs_left_to_right [nested]" by (simp add: dfs_concat)
  have a: "s = Sequential i (dfs_left_to_right [nested]) \<and>
           layers_of s = Inr (dfs_left_to_right [nested])"
    if "Sequential_init base i nested = Inr s" for s
    using Sequential_init_layers[OF that] f by simp
  have b: "Sequential_init base i nested = Inr (Sequential i (dfs_left_to_right [nested]))"
    if "private_layers (dfs_left_to_right [nested]) = first # rest \<and>
        (owns_output base first = Inr True \<or>
         (owns_output base first = Inr False \<and>
          type_of first \<in> {TLeaf Dropout, TLeaf DataTransform}))" for first rest
    using Sequential_init_returns[of nested first rest base i] that f by simp
  show ?thesis
    apply (intro conjI allI impI)
      apply (rule f)
     apply (rule a [THEN conjunct1], assumption)
    apply (rule a [THEN conjunct2], assumption)
    apply (rule b, assumption)
    done
qed

text \<open>
  The witness: a list of nesting depth 3, with a tuple, an empty list and a BranchNode in
  it. The constructor returns, and \<^verbatim>\<open>flatten\<close>, the traversal and the stored
  \<^verbatim>\<open>layers\<close> are the same five layers in the same order.
\<close>

theorem Sequential_layers_depth_first_witness:
  "depth nested_example = 3 \<and>
   flatten nested_example =
     [Leaf 1 Convolution True 16 1, Leaf 2 BranchNode False 0 0,
      Leaf 3 (LayerClass ''Pooling'') True 0 0, Leaf 4 Dropout False 0 0,
      Leaf 5 Convolution True 16 1] \<and>
   dfs_left_to_right [nested_example] =
     [Leaf 1 Convolution True 16 1, Leaf 2 BranchNode False 0 0,
      Leaf 3 (LayerClass ''Pooling'') True 0 0, Leaf 4 Dropout False 0 0,
      Leaf 5 Convolution True 16 1] \<and>
   Sequential_init True 7 nested_example =
     Inr (Sequential 7 [Leaf 1 Convolution True 16 1, Leaf 2 BranchNode False 0 0,
                        Leaf 3 (LayerClass ''Pooling'') True 0 0, Leaf 4 Dropout False 0 0,
                        Leaf 5 Convolution True 16 1])"
proof -
  let ?ls = "[Leaf 1 Convolution True 16 1, Leaf 2 BranchNode False 0 0,
      Leaf 3 (LayerClass ''Pooling'') True 0 0, Leaf 4 Dropout False 0 0,
      Leaf 5 Convolution True 16 1]"
  have d: "depth nested_example = 3" by (simp add: nested_example_def)
  have fl: "flatten nested_example = ?ls" by (simp add: nested_example_def)
  note inst = Sequential_layers_depth_first[of nested_example True 7]
  from inst fl have dfs: "dfs_left_to_right [nested_example] = ?ls" by simp
  have pl: "private_layers (dfs_left_to_right [nested_example]) =
              Leaf 1 Convolution True 16 1 #
              [Leaf 3 (LayerClass ''Pooling'') True 0 0, Leaf 4 Dropout False 0 0,
               Leaf 5 Convolution True 16 1]"
    unfolding dfs by (simp add: private_layers_def)
  have own: "owns_output True (Leaf 1 Convolution True 16 1) = Inr True" by simp
  from inst pl own
  have "Sequential_init True 7 nested_example =
          Inr (Sequential 7 (dfs_left_to_right [nested_example]))"
    by blast
  with d fl dfs show ?thesis by simp
qed

section \<open>Branch lists of Tree and MergeBroadcast\<close>

lemma branch_loop_skip:
  "\<not> compatible x \<Longrightarrow> branch_loop base (xs @ x # ys) acc n = branch_loop base (xs @ ys) acc n"
proof (induction xs arbitrary: acc n)
  case Nil
  then show ?case by (simp add: compatible_def)
next
  case (Cons a xs)
  then show ?case by (simp split: sum.splits)
qed

text \<open>
  An element that is neither a Sequential, a list nor a Layer raises nothing in the loop
  and gets no branch: each constructor returns, or raises, exactly what it does on the
  list without that element.
\<close>

lemma incompatible_element_omitted:
  assumes "\<not> compatible x"
  shows "Tree_init base n (xs @ x # ys) alphas = Tree_init base n (xs @ ys) alphas \<and>
         MergeBroadcast_init base n (xs @ x # ys) merge alphas =
           MergeBroadcast_init base n (xs @ ys) merge alphas"
  using branch_loop_skip[OF assms] by (simp add: Tree_init_def MergeBroadcast_init_def)

text \<open>
  A Tree and a MergeBroadcast of one branch, built from a list whose second element is the
  integer 42.
\<close>

lemma incompatible_element_omitted_example:
  "\<not> compatible (PyAtom ''42'') \<and>
   Tree_init True 0 ([PyList [trunk_conv]] @ PyAtom ''42'' # []) None =
     Inr (Tree 0 [Sequential 1 [trunk_conv]] [1] [1], 2) \<and>
   MergeBroadcast_init True 0 ([PyList [trunk_conv]] @ PyAtom ''42'' # []) ''depth'' None =
     Inr (MergeBroadcast 0 [Sequential 1 [trunk_conv]] [0] [1] ''depth'', 2)"
proof -
  have c: "\<not> compatible (PyAtom ''42'')"
    by (simp add: compatible_def isinstance_Sequential_def isinstance_list_def)
  have t: "Tree_init True 0 ([PyList [trunk_conv]] @ []) None =
             Inr (Tree 0 [Sequential 1 [trunk_conv]] [1] [1], 2)"
    by (simp add: Tree_init_def Sequential_init_def private_layers_def trunk_conv_def
        isinstance_Sequential_def isinstance_list_def default_alphas_def is_obj_def)
  have m: "MergeBroadcast_init True 0 ([PyList [trunk_conv]] @ []) ''depth'' None =
             Inr (MergeBroadcast 0 [Sequential 1 [trunk_conv]] [0] [1] ''depth'', 2)"
    by (simp add: MergeBroadcast_init_def merge_attrs_def Sequential_init_def private_layers_def
        trunk_conv_def isinstance_Sequential_def isinstance_list_def default_alphas_def)
  show ?thesis
    using incompatible_element_omitted[OF c, of True 0 "[PyList [trunk_conv]]" "[]" None "''depth''"]
      c t m by simp
qed

text \<open>
  C10. The claim: construction with an element that is neither a Sequential, a list nor a
  Layer completes without an exception, the element being left out. The code at
  \<^verbatim>\<open>MergeBroadcast([42], merge="depth")\<close>: the loop builds the ValueError without
  raising it and leaves \<^verbatim>\<open>self.layers\<close> empty, and the next statement but one,
  \<^verbatim>\<open>self.betas[-1] = 0.0\<close>, raises IndexError. \<^verbatim>\<open>Tree([42])\<close> completes, with no
  branch.
\<close>

theorem MergeBroadcast_only_incompatible_raises:
  "MergeBroadcast_init True 0 [PyAtom ''42''] ''depth'' None = Inl IndexError \<and>
   Tree_init True 0 [PyAtom ''42''] None = Inr (Tree 0 [] [] [], 1)"
  by (simp add: MergeBroadcast_init_def merge_attrs_def Tree_init_def default_alphas_def
      isinstance_Sequential_def isinstance_list_def)

section \<open>The betas of a Tree\<close>

lemma roots_of_Cons:
  "layers_of l = Inr (r # rest) \<Longrightarrow> roots_of (l # ls) = r # roots_of ls"
  by (simp add: roots_of_def)

lemma betas_loop_bseq:
  "betas_loop ls nr acc = Inr bs \<Longrightarrow>
     length (roots_of ls) = length ls \<and> bs = acc @ bseq (roots_of ls) nr"
proof (induction ls arbitrary: nr acc bs)
  case Nil
  then show ?case by (simp add: roots_of_def)
next
  case (Cons l ls)
  obtain r rest where lr: "layers_of l = Inr (r # rest)"
    using Cons.prems by (auto split: sum.splits list.splits)
  from Cons.prems lr have "betas_loop ls (Some r) (acc @ [beta_of r nr]) = Inr bs"
    by (simp add: Let_def beta_of_def)
  from Cons.IH[OF this] show ?case
    by (simp add: roots_of_Cons[OF lr])
qed

lemma roots_of_append: "roots_of (xs @ ys) = roots_of xs @ roots_of ys"
  by (simp add: roots_of_def)

lemma roots_of_rev: "roots_of (rev ls) = rev (roots_of ls)"
proof (induction ls)
  case Nil
  show ?case by (simp add: roots_of_def)
next
  case (Cons l ls)
  have "roots_of [l] = rev (roots_of [l])"
    by (simp add: roots_of_def split: sum.splits list.splits)
  with Cons show ?case
    using roots_of_append[of "[l]" ls] roots_of_append[of "rev ls" "[l]"] by simp
qed

lemma bseq_snoc:
  "bseq (xs @ [r]) nr = bseq xs nr @ [beta_of r (if xs = [] then nr else Some (last xs))]"
  by (induction xs arbitrary: nr) auto

lemma rev_bseq_rev: "rev (bseq (rev rs) None) = fbetas rs"
proof (induction rs rule: fbetas.induct)
  case 1
  show ?case by simp
next
  case (2 r)
  show ?case by simp
next
  case (3 r r' rs)
  have "bseq (rev (r # r' # rs)) None = bseq (rev (r' # rs)) None @ [beta_of r (Some r')]"
    using bseq_snoc[of "rev (r' # rs)" r None] by (simp add: last_rev)
  with 3 show ?case by simp
qed

lemma Tree_init_betas:
  assumes "Tree_init base n layers alphas = Inr (Tree i ls al bs, n')"
  shows "length (roots_of ls) = length ls \<and> bs = fbetas (roots_of ls)"
proof -
  from assms obtain cs where cs: "betas_loop (rev ls) None [] = Inr cs" and bs: "bs = rev cs"
    by (auto simp: Tree_init_def split: sum.splits prod.splits)
  from betas_loop_bseq[OF cs] have "length (roots_of (rev ls)) = length (rev ls)"
    and "cs = bseq (roots_of (rev ls)) None" by simp_all
  then show ?thesis using bs by (simp add: roots_of_rev rev_bseq_rev)
qed

lemma length_fbetas: "length (fbetas rs) = length rs"
  by (induction rs rule: fbetas.induct) simp_all

lemma fbetas_not_BranchNode:
  "k < length rs \<Longrightarrow> type_of (rs ! k) \<noteq> TLeaf BranchNode \<Longrightarrow> fbetas rs ! k = 1"
proof (induction rs arbitrary: k rule: fbetas.induct)
  case 1
  then show ?case by simp
next
  case (2 r)
  then show ?case by (simp add: beta_of_def)
next
  case (3 r r' rs)
  then show ?case by (cases k) (simp_all add: beta_of_def)
qed

lemma fbetas_range: "b \<in> set (fbetas rs) \<Longrightarrow> b = 0 \<or> b = 1"
  by (induction rs rule: fbetas.induct) (auto simp: beta_of_def split: if_splits)

lemma initializers_fbetas:
  assumes "type_of r = TLeaf BranchNode"
      and "\<forall>x\<in>set rs. same_instance x r \<longleftrightarrow> x = r"
      and "\<forall>x\<in>set rs. same_instance r x \<longleftrightarrow> x = r"
      and "grouped rs"
  shows "initializers r rs (fbetas rs) = (if r \<in> set rs then 1 else 0)"
  using assms(2-)
proof (induction rs rule: fbetas.induct)
  case 1
  show ?case by (simp add: initializers_def)
next
  case (2 a)
  then show ?case using assms(1) by (auto simp: initializers_def beta_of_def is_obj_def)
next
  case (3 a a' rs)
  have IH: "initializers r (a' # rs) (fbetas (a' # rs)) = (if r \<in> set (a' # rs) then 1 else 0)"
    using 3 by simp
  have step: "initializers r (a # a' # rs) (fbetas (a # a' # rs)) =
      (if same_instance a r \<and> beta_of a (Some a') = 0 then 1 else 0)
        + initializers r (a' # rs) (fbetas (a' # rs))"
    by (simp add: initializers_def)
  show ?case
  proof (cases "a = r")
    case True
    show ?thesis
    proof (cases "a' = r")
      case True
      with \<open>a = r\<close> 3 have "beta_of a (Some a') = 1"
        by (simp add: beta_of_def same_instance_def)
      with step IH True show ?thesis by simp
    next
      case False
      with \<open>a = r\<close> 3 have nosame: "\<not> same_instance r a'" by simp
      with \<open>a = r\<close> 3(4) assms(1)
      have "list_all (\<lambda>x. \<not> same_instance r x) (a' # rs)" by simp
      then have "r \<notin> set (a' # rs)" using 3(3) by (auto simp: list_all_iff)
      moreover have "beta_of a (Some a') = 0"
        using nosame \<open>a = r\<close> assms(1) by (simp add: beta_of_def same_instance_def)
      moreover have "same_instance a r" using 3(2) \<open>a = r\<close> by simp
      ultimately show ?thesis using step IH \<open>a = r\<close> by simp
    qed
  next
    case False
    then have "\<not> same_instance a r" using 3(2) by simp
    with step IH False show ?thesis by simp
  qed
qed

lemma zip_filter_split:
  assumes "length rs = length bs" and "\<forall>b\<in>set bs. b = 0 \<or> b = (1::real)"
  shows "initializers r rs bs + accumulators r rs bs = sharers r rs"
  using assms
proof (induction rs bs rule: list_induct2)
  case Nil
  show ?case by (simp add: initializers_def accumulators_def sharers_def)
next
  case (Cons x xs y ys)
  then have "initializers r xs ys + accumulators r xs ys = sharers r xs" by simp
  moreover have "y = 0 \<or> y = 1" using Cons.prems by simp
  ultimately show ?case
    by (auto simp: initializers_def accumulators_def sharers_def)
qed

lemma same_instance_sym: "same_instance a b = same_instance b a"
  by (auto simp: same_instance_def is_obj_def split: option.splits)

lemma fbetas_nth:
  "k < length rs \<Longrightarrow>
     fbetas rs ! k = beta_of (rs ! k) (if Suc k < length rs then Some (rs ! Suc k) else None)"
proof (induction rs arbitrary: k rule: fbetas.induct)
  case 1
  then show ?case by simp
next
  case (2 r)
  then show ?case by simp
next
  case (3 r r' rs)
  then show ?case by (cases k) simp_all
qed

lemma grouped_no_later:
  "grouped rs \<Longrightarrow> Suc k < length rs \<Longrightarrow> type_of (rs ! k) = TLeaf BranchNode \<Longrightarrow>
     \<not> same_instance (rs ! k) (rs ! Suc k) \<Longrightarrow>
     list_all (\<lambda>x. \<not> same_instance (rs ! k) x) (drop (Suc k) rs)"
proof (induction rs arbitrary: k rule: grouped.induct)
  case 1
  then show ?case by simp
next
  case (2 r)
  then show ?case by simp
next
  case (3 r r' rs)
  show ?case
  proof (cases k)
    case 0
    with "3.prems" show ?thesis by simp
  next
    case (Suc j)
    with "3.prems" have "list_all (\<lambda>x. \<not> same_instance ((r' # rs) ! j) x) (drop (Suc j) (r' # rs))"
      by (intro "3.IH") simp_all
    with Suc show ?thesis by simp
  qed
qed

lemma fbetas_last_of_root:
  assumes gr: "grouped rs" and k: "k < length rs"
      and t: "type_of (rs ! k) = TLeaf BranchNode"
  shows "fbetas rs ! k = (if later_same_root rs k then 1 else 0)"
proof (cases "Suc k < length rs")
  case True
  have b: "fbetas rs ! k = (if same_instance (rs ! k) (rs ! Suc k) then 1 else 0)"
    using fbetas_nth[OF k] True t by (simp add: beta_of_def same_instance_def)
  have d: "drop (Suc k) rs = rs ! Suc k # drop (Suc (Suc k)) rs"
    using True by (simp add: Cons_nth_drop_Suc)
  show ?thesis
  proof (cases "same_instance (rs ! k) (rs ! Suc k)")
    case True
    then have "later_same_root rs k"
      unfolding later_same_root_def d using same_instance_sym[of "rs ! k"] by simp
    with b True show ?thesis by simp
  next
    case False
    from grouped_no_later[OF gr \<open>Suc k < length rs\<close> t False]
    have "\<not> later_same_root rs k"
      unfolding later_same_root_def using same_instance_sym[of "rs ! k"]
      by (simp add: list_all_iff list_ex_iff)
    with b False show ?thesis by simp
  qed
next
  case False
  then have "fbetas rs ! k = 0"
    using fbetas_nth[OF k] t by (simp add: beta_of_def is_obj_def)
  moreover have "\<not> later_same_root rs k" using False by (simp add: later_same_root_def)
  ultimately show ?thesis by simp
qed

text \<open>
  C1, as amended. When the branches of each BranchNode root stand next to each other:
  a branch whose root is a BranchNode has beta 0.0 if it is the last branch with that
  root instance and beta 1.0 if a later branch shares the root, so that every BranchNode
  root has exactly one branch with beta 0.0 and all other branches that share it have
  beta 1.0; and every branch whose root is not a BranchNode, the trunk among them, has
  beta 1.0.
\<close>

theorem Tree_betas_one_initializer:
  assumes init: "Tree_init base n layers alphas = Inr (Tree i ls al bs, n')"
      and wf: "handles_identify (roots_of ls)"
      and gr: "grouped (roots_of ls)"
  shows "length bs = length ls \<and> length (roots_of ls) = length ls \<and>
         (\<forall>k<length ls. type_of (roots_of ls ! k) \<noteq> TLeaf BranchNode \<longrightarrow> bs ! k = 1) \<and>
         (\<forall>k<length ls. type_of (roots_of ls ! k) = TLeaf BranchNode \<longrightarrow>
             bs ! k = (if later_same_root (roots_of ls) k then 1 else 0)) \<and>
         (\<forall>r\<in>set (roots_of ls). type_of r = TLeaf BranchNode \<longrightarrow>
             initializers r (roots_of ls) bs = 1 \<and>
             accumulators r (roots_of ls) bs + 1 = sharers r (roots_of ls))"
proof -
  let ?rs = "roots_of ls"
  from Tree_init_betas[OF init] have len: "length ?rs = length ls" and bs: "bs = fbetas ?rs"
    by simp_all
  have l2: "length bs = length ls" using len bs by (simp add: length_fbetas)
  have nb: "\<forall>k<length ls. type_of (?rs ! k) \<noteq> TLeaf BranchNode \<longrightarrow> bs ! k = 1"
    using fbetas_not_BranchNode[of _ ?rs] len bs by simp
  have lst: "\<forall>k<length ls. type_of (?rs ! k) = TLeaf BranchNode \<longrightarrow>
               bs ! k = (if later_same_root ?rs k then 1 else 0)"
    using fbetas_last_of_root[OF gr] len bs by simp
  have one: "initializers r ?rs bs = 1 \<and> accumulators r ?rs bs + 1 = sharers r ?rs"
    if r: "r \<in> set ?rs" and t: "type_of r = TLeaf BranchNode" for r
  proof -
    from t obtain h where h: "oid r = Some h" by (cases r) simp_all
    have a: "\<forall>x\<in>set ?rs. same_instance x r \<longleftrightarrow> x = r"
      using wf r h by (auto simp: handles_identify_def list_all_iff same_instance_def is_obj_def
          split: option.splits)
    have b: "\<forall>x\<in>set ?rs. same_instance r x \<longleftrightarrow> x = r"
      using wf r h by (auto simp: handles_identify_def list_all_iff same_instance_def is_obj_def
          split: option.splits)
    have i1: "initializers r ?rs bs = 1"
      using initializers_fbetas[OF t a b gr] r bs by simp
    have "initializers r ?rs bs + accumulators r ?rs bs = sharers r ?rs"
      using zip_filter_split[of ?rs bs r] l2 len fbetas_range[of _ ?rs] bs by auto
    with i1 show ?thesis by simp
  qed
  have cnt: "\<forall>r\<in>set ?rs. type_of r = TLeaf BranchNode \<longrightarrow>
               initializers r ?rs bs = 1 \<and> accumulators r ?rs bs + 1 = sharers r ?rs"
    using one by blast
  from l2 len nb lst cnt show ?thesis by (intro conjI)
qed

lemmas init_simps = Tree_init_def Sequential_init_def private_layers_def trunk_conv_def
        isinstance_Sequential_def isinstance_list_def default_alphas_def is_obj_def
        branch_node_A_def branch_node_B_def

lemma tree_grouped_init:
  "Tree_init True 0 tree_input_grouped None =
     Inr (Tree 0 grouped_branches [1, 1, 1, 1] [1, 1, 0, 0], 5)"
  by (simp add: tree_input_grouped_def grouped_branches_def init_simps)

lemma grouped_roots: "roots_of grouped_branches = [trunk_conv, branch_node_A, branch_node_A, branch_node_B]"
  by (simp add: roots_of_def grouped_branches_def)

text \<open>
  The witness: the trunk, two branches at \<open>branch_node_A\<close>, one at \<open>branch_node_B\<close>.
  The first branch at \<open>branch_node_A\<close> has a later branch with the same root and beta 1.0,
  the second has none and beta 0.0.
\<close>

theorem Tree_betas_one_initializer_witness:
  "Tree_init True 0 tree_input_grouped None =
     Inr (Tree 0 grouped_branches [1, 1, 1, 1] [1, 1, 0, 0], 5) \<and>
   roots_of grouped_branches = [trunk_conv, branch_node_A, branch_node_A, branch_node_B] \<and>
   handles_identify (roots_of grouped_branches) \<and>
   grouped (roots_of grouped_branches) \<and>
   later_same_root (roots_of grouped_branches) 1 \<and>
   [1, 1, 0, 0] ! 1 = (1::real) \<and>
   \<not> later_same_root (roots_of grouped_branches) 2 \<and>
   [1, 1, 0, 0] ! 2 = (0::real) \<and>
   initializers branch_node_A (roots_of grouped_branches) [1, 1, 0, 0] = 1 \<and>
   accumulators branch_node_A (roots_of grouped_branches) [1, 1, 0, 0] + 1 =
     sharers branch_node_A (roots_of grouped_branches) \<and>
   initializers branch_node_B (roots_of grouped_branches) [1, 1, 0, 0] = 1"
proof -
  let ?rs = "roots_of grouped_branches" and ?bs = "[1, 1, 0, 0] :: real list"
  have wf: "handles_identify ?rs"
    by (simp add: grouped_roots handles_identify_def trunk_conv_def branch_node_A_def
        branch_node_B_def)
  have gr: "grouped ?rs"
    by (simp add: grouped_roots same_instance_def is_obj_def trunk_conv_def branch_node_A_def
        branch_node_B_def)
  have tA: "type_of branch_node_A = TLeaf BranchNode" "type_of branch_node_B = TLeaf BranchNode"
    by (simp_all add: branch_node_A_def branch_node_B_def)
  have l1: "later_same_root ?rs 1" and l2: "\<not> later_same_root ?rs 2"
    by (simp_all add: grouped_roots later_same_root_def same_instance_def is_obj_def
        branch_node_A_def branch_node_B_def)
  note inst = Tree_betas_one_initializer[OF tree_grouped_init wf gr]
  from inst have lst: "\<forall>k<length grouped_branches. type_of (?rs ! k) = TLeaf BranchNode \<longrightarrow>
             ?bs ! k = (if later_same_root ?rs k then 1 else 0)"
    by (rule conjunct2 [THEN conjunct2, THEN conjunct2, THEN conjunct1])
  from inst have cnt: "\<forall>r\<in>set ?rs. type_of r = TLeaf BranchNode \<longrightarrow>
             initializers r ?rs ?bs = 1 \<and> accumulators r ?rs ?bs + 1 = sharers r ?rs"
    by (rule conjunct2 [THEN conjunct2, THEN conjunct2, THEN conjunct2])
  have b1: "?bs ! 1 = 1" using lst[rule_format, of 1] l1 tA
    by (simp add: grouped_roots grouped_branches_def)
  have b2: "?bs ! 2 = 0" using lst[rule_format, of 2] l2 tA
    by (simp add: grouped_roots grouped_branches_def)
  have cA: "initializers branch_node_A ?rs ?bs = 1 \<and>
            accumulators branch_node_A ?rs ?bs + 1 = sharers branch_node_A ?rs"
    using cnt[rule_format, of branch_node_A] tA by (simp add: grouped_roots)
  have cB: "initializers branch_node_B ?rs ?bs = 1"
    using cnt[rule_format, of branch_node_B] tA by (simp add: grouped_roots)
  from tree_grouped_init grouped_roots wf gr l1 b1 l2 b2 cA cB show ?thesis
    by (intro conjI) simp_all
qed

text \<open>
  The claim as written fails when a branch of another root stands between two branches of
  \<open>branch_node_A\<close>: both of them are given beta 0.0.
\<close>

theorem Tree_betas_interleaved_two_initializers:
  "Tree_init True 0 tree_input_interleaved None =
     Inr (Tree 0 interleaved_branches [1, 1, 1, 1] [1, 0, 0, 0], 5) \<and>
   roots_of interleaved_branches = [trunk_conv, branch_node_A, branch_node_B, branch_node_A] \<and>
   initializers branch_node_A (roots_of interleaved_branches) [1, 0, 0, 0] = 2"
  by (simp add: tree_input_interleaved_def interleaved_branches_def init_simps roots_of_def
      initializers_def same_instance_def)

section \<open>Merging by depth\<close>

lemma cumsum_from_nth:
  "k < length xs \<Longrightarrow> cumsum_from a xs ! k = a + sum_list (take (Suc k) xs)"
proof (induction xs arbitrary: a k)
  case Nil
  then show ?case by simp
next
  case (Cons x xs)
  then show ?case by (cases k) simp_all
qed

lemma length_cumsum_from: "length (cumsum_from a xs) = length xs"
  by (induction xs arbitrary: a) simp_all

lemma make_slices_nth:
  assumes "k < length catdims"
  shows "make_slices catdims stride ! k =
           (sum_list (take k catdims) * stride, sum_list (take (Suc k) catdims) * stride)"
proof -
  let ?e = "map (\<lambda>idx. idx * stride) (cumsum catdims)"
  have le: "length ?e = length catdims" by (simp add: cumsum_def length_cumsum_from)
  have e: "?e ! j = sum_list (take (Suc j) catdims) * stride" if "j < length catdims" for j
    using that by (simp add: cumsum_def length_cumsum_from cumsum_from_nth)
  have s: "([0] @ butlast ?e) ! k = sum_list (take k catdims) * stride"
  proof (cases k)
    case 0
    then show ?thesis by simp
  next
    case (Suc j)
    then have "j < length (butlast ?e)" using assms le by simp
    then have "butlast ?e ! j = ?e ! j" by (rule nth_butlast)
    then show ?thesis using Suc e[of j] assms by simp
  qed
  have "k < length ([0] @ butlast ?e)" using assms le by simp
  then show ?thesis
    unfolding make_slices_def Let_def using assms le s e[OF assms] by (simp del: append.simps)
qed

lemma length_make_slices: "length (make_slices catdims stride) = length catdims"
  by (simp add: make_slices_def Let_def cumsum_def length_cumsum_from)

lemma comprehension_length: "comprehension f xs = Inr ys \<Longrightarrow> length ys = length xs"
  by (induction xs arbitrary: ys) (auto split: sum.splits)

lemma depth_slices_prefix_sums:
  assumes c: "comprehension (\<lambda>xs. shape_getitem xs 0) in_shapes = Inr catdims"
      and t: "shape_tail (hd in_shapes) = Inr trailing"
      and ne: "in_shapes \<noteq> []"
  shows "\<exists>sl. configure_merge ''depth'' bsz in_shapes =
               Inr (ShapeTuple (sum_list catdims # trailing), sl) \<and>
              length sl = length in_shapes \<and>
              (\<forall>k<length in_shapes. sl ! k =
                 (sum_list (take k catdims) * prod_list trailing,
                  sum_list (take (Suc k) catdims) * prod_list trailing))"
proof -
  have len: "length catdims = length in_shapes" using c by (rule comprehension_length)
  obtain s0 rest where sh: "in_shapes = s0 # rest" using ne by (cases in_shapes) auto
  have "configure_merge ''depth'' bsz in_shapes =
          Inr (ShapeTuple (sum_list catdims # trailing), make_slices catdims (prod_list trailing))"
    using c t unfolding configure_merge_def sh by simp
  then show ?thesis
    using len make_slices_nth[of _ catdims "prod_list trailing"]
    by (simp add: length_make_slices)
qed

text \<open>
  C2. With \<^verbatim>\<open>merge="depth"\<close> and two sub-paths of output shape (4, 8, 8), the
  \<^verbatim>\<open>out_shape\<close> is (8, 8, 8) and the slices are 0:256 and 256:512. On the output
  buffer, a tensor of 8 * 8 * 8 = 512 rows whose trailing dimension is the batch size,
  \<^verbatim>\<open>get_partitions\<close> returns two views of the same buffer: its first 256 rows and its
  last 256 rows. For any sub-path shapes, the k-th slice of a depth merge starts at the
  sum of the leading dimensions of the earlier sub-paths and stops at the sum including
  its own, both times the product of the trailing dimensions of the first shape.
\<close>

theorem depth_merge_partitions:
  assumes rows: "nrows x = 512" and cols: "ncols x = bsz"
  shows "configure_merge ''depth'' bsz [ShapeTuple [4, 8, 8], ShapeTuple [4, 8, 8]] =
           Inr (ShapeTuple [8, 8, 8], [(0, 256), (256, 512)]) \<and>
         get_partitions bsz x [(0, 256), (256, 512)] =
           [x\<lparr>row_hi := row_lo x + 256\<rparr>, x\<lparr>row_lo := row_lo x + 256\<rparr>] \<and>
         (\<forall>in_shapes catdims trailing.
            in_shapes \<noteq> [] \<and>
            comprehension (\<lambda>xs. shape_getitem xs 0) in_shapes = Inr catdims \<and>
            shape_tail (hd in_shapes) = Inr trailing \<longrightarrow>
            (\<exists>sl. configure_merge ''depth'' bsz in_shapes =
                     Inr (ShapeTuple (sum_list catdims # trailing), sl) \<and>
                   length sl = length in_shapes \<and>
                   (\<forall>k<length in_shapes. sl ! k =
                      (sum_list (take k catdims) * prod_list trailing,
                       sum_list (take (Suc k) catdims) * prod_list trailing))))"
proof -
  have a: "configure_merge ''depth'' bsz [ShapeTuple [4, 8, 8], ShapeTuple [4, 8, 8]] =
           Inr (ShapeTuple [8, 8, 8], [(0, 256), (256, 512)])"
    by (simp add: configure_merge_def make_slices_def cumsum_def)
  have hi: "row_hi x = row_lo x + 512" using rows by (simp add: nrows_def)
  have b: "get_partitions bsz x [(0, 256), (256, 512)] =
           [x\<lparr>row_hi := row_lo x + 256\<rparr>, x\<lparr>row_lo := row_lo x + 256\<rparr>]"
    using rows cols hi
    by (simp add: get_partitions_def slice_rows_def slice_indices_def clip_def)
  show ?thesis
    using a b depth_slices_prefix_sums by blast
qed

text \<open>The witness: batch size 32, the output buffer at handle 0.\<close>

theorem depth_merge_partitions_witness:
  "nrows \<lparr>buffer = 0, row_lo = 0, row_hi = 512, col_lo = 0, col_hi = 32\<rparr> = 512 \<and>
   ncols \<lparr>buffer = 0, row_lo = 0, row_hi = 512, col_lo = 0, col_hi = 32\<rparr> = 32 \<and>
   configure_merge ''depth'' 32 [ShapeTuple [4, 8, 8], ShapeTuple [4, 8, 8]] =
     Inr (ShapeTuple [8, 8, 8], [(0, 256), (256, 512)]) \<and>
   get_partitions 32 \<lparr>buffer = 0, row_lo = 0, row_hi = 512, col_lo = 0, col_hi = 32\<rparr>
       [(0, 256), (256, 512)] =
     [\<lparr>buffer = 0, row_lo = 0, row_hi = 256, col_lo = 0, col_hi = 32\<rparr>,
      \<lparr>buffer = 0, row_lo = 256, row_hi = 512, col_lo = 0, col_hi = 32\<rparr>]"
proof -
  let ?x = "\<lparr>buffer = 0, row_lo = 0, row_hi = 512, col_lo = 0, col_hi = 32\<rparr>"
  have r: "nrows ?x = 512" by (simp add: nrows_def)
  have c: "ncols ?x = 32" by (simp add: ncols_def)
  from depth_merge_partitions[OF r c] r c show ?thesis by simp
qed

section \<open>Forward propagation through a Tree\<close>

lemma fprop_None_chain:
  "fprop_None lf ls s = Inr (ys, s') \<longleftrightarrow>
     (\<exists>states. length ys = length ls \<and> length states = Suc (length ls) \<and>
        states ! 0 = s \<and> last states = s' \<and>
        (\<forall>k<length ls. Sequential_fprop lf (ls ! k) VNone False (states ! k) =
                          Inr (ys ! k, states ! Suc k)))"
proof (induction ls arbitrary: s ys)
  case Nil
  show ?case
  proof
    assume "fprop_None lf [] s = Inr (ys, s')"
    then have "ys = []" "s' = s" by simp_all
    then show "\<exists>states. length ys = length [] \<and> length states = Suc (length []) \<and>
        states ! 0 = s \<and> last states = s' \<and>
        (\<forall>k<length []. Sequential_fprop lf ([] ! k) VNone False (states ! k) =
                          Inr (ys ! k, states ! Suc k))"
      by (intro exI[of _ "[s]"]) simp
  next
    assume "\<exists>states. length ys = length [] \<and> length states = Suc (length []) \<and>
        states ! 0 = s \<and> last states = s' \<and>
        (\<forall>k<length []. Sequential_fprop lf ([] ! k) VNone False (states ! k) =
                          Inr (ys ! k, states ! Suc k))"
    then obtain states where "ys = []" "length states = Suc 0" "states ! 0 = s" "last states = s'"
      by auto
    then have "s' = s" by (cases states) auto
    with \<open>ys = []\<close> show "fprop_None lf [] s = Inr (ys, s')" by simp
  qed
next
  case (Cons l ls)
  show ?case
  proof
    assume a: "fprop_None lf (l # ls) s = Inr (ys, s')"
    then obtain y s1 where 1: "Sequential_fprop lf l VNone False s = Inr (y, s1)"
      by (auto split: sum.splits)
    with a obtain ys' where 2: "fprop_None lf ls s1 = Inr (ys', s')" and ys: "ys = y # ys'"
      by (auto split: sum.splits)
    from 2 Cons.IH[of s1 ys'] obtain states where st:
      "length ys' = length ls" "length states = Suc (length ls)" "states ! 0 = s1"
      "last states = s'"
      "\<forall>k<length ls. Sequential_fprop lf (ls ! k) VNone False (states ! k) =
                          Inr (ys' ! k, states ! Suc k)"
      by blast
    have ne: "states \<noteq> []" using st(2) by auto
    have "\<forall>k<length (l # ls). Sequential_fprop lf ((l # ls) ! k) VNone False ((s # states) ! k) =
                          Inr (ys ! k, (s # states) ! Suc k)"
    proof (intro allI impI)
      fix k assume "k < length (l # ls)"
      then show "Sequential_fprop lf ((l # ls) ! k) VNone False ((s # states) ! k) =
                          Inr (ys ! k, (s # states) ! Suc k)"
        using 1 st(3) st(5) ys by (cases k) auto
    qed
    then show "\<exists>states. length ys = length (l # ls) \<and> length states = Suc (length (l # ls)) \<and>
        states ! 0 = s \<and> last states = s' \<and>
        (\<forall>k<length (l # ls). Sequential_fprop lf ((l # ls) ! k) VNone False (states ! k) =
                          Inr (ys ! k, states ! Suc k))"
      using st ys ne by (intro exI[of _ "s # states"]) simp
  next
    assume "\<exists>states. length ys = length (l # ls) \<and> length states = Suc (length (l # ls)) \<and>
        states ! 0 = s \<and> last states = s' \<and>
        (\<forall>k<length (l # ls). Sequential_fprop lf ((l # ls) ! k) VNone False (states ! k) =
                          Inr (ys ! k, states ! Suc k))"
    then obtain states where st:
      "length ys = Suc (length ls)" "length states = Suc (Suc (length ls))" "states ! 0 = s"
      "last states = s'"
      and all: "\<forall>k<Suc (length ls). Sequential_fprop lf ((l # ls) ! k) VNone False (states ! k) =
                          Inr (ys ! k, states ! Suc k)"
      by auto
    from st(1) obtain y ys' where ys: "ys = y # ys'" "length ys' = length ls"
      by (cases ys) auto
    from st(2,3) obtain rest where states: "states = s # rest" "length rest = Suc (length ls)"
      by (cases states) auto
    from all[rule_format, of 0] ys states
    have 1: "Sequential_fprop lf l VNone False s = Inr (y, rest ! 0)" by simp
    have "\<forall>k<length ls. Sequential_fprop lf (ls ! k) VNone False (rest ! k) =
                          Inr (ys' ! k, rest ! Suc k)"
    proof (intro allI impI)
      fix k assume "k < length ls"
      with all[rule_format, of "Suc k"] ys states
      show "Sequential_fprop lf (ls ! k) VNone False (rest ! k) = Inr (ys' ! k, rest ! Suc k)"
        by simp
    qed
    moreover have "last rest = s'" using st(4) states by (cases rest) auto
    ultimately have "fprop_None lf ls (rest ! 0) = Inr (ys', s')"
      using Cons.IH[of "rest ! 0" ys'] ys(2) states(2) by blast
    with 1 ys show "fprop_None lf (l # ls) s = Inr (ys, s')" by simp
  qed
qed

text \<open>
  C5. For a Tree with a trunk: with \<^verbatim>\<open>inference=True\<close>, \<^verbatim>\<open>fprop\<close> returns what the
  trunk returns and leaves the state the trunk leaves, so no auxiliary branch is
  evaluated. With \<^verbatim>\<open>inference=False\<close> it returns exactly when every branch returns,
  evaluated one after the other in branch order, the trunk on the input and every
  auxiliary branch on None; the value is then the list of the outputs of the branches, one
  per branch, in branch order.
\<close>

theorem Tree_fprop_outputs:
  assumes "layers_of t = Inr (trunk # aux)"
  shows "Tree_fprop lf t inputs True s = Sequential_fprop lf trunk inputs True s \<and>
         (Tree_fprop lf t inputs False s = Inr (v, s') \<longleftrightarrow>
            (\<exists>outs states.
               v = VList outs \<and> length outs = length (trunk # aux) \<and>
               length states = Suc (length (trunk # aux)) \<and>
               states ! 0 = s \<and> last states = s' \<and>
               (\<forall>k<length (trunk # aux).
                  Sequential_fprop lf ((trunk # aux) ! k) (if k = 0 then inputs else VNone) False
                    (states ! k) = Inr (outs ! k, states ! Suc k))))"
    (is "?A \<and> (?L \<longleftrightarrow> ?R)")
proof (intro conjI iffI)
  show ?A using assms by (simp add: Tree_fprop_def split: sum.splits)
next
  assume ?L
  then obtain x s1 out where 1: "Sequential_fprop lf trunk inputs False s = Inr (x, s1)"
    and 2: "fprop_None lf aux s1 = Inr (out, s')" and v: "v = VList (x # out)"
    using assms by (auto simp: Tree_fprop_def split: sum.splits)
  from 2 obtain states where st:
      "length out = length aux" "length states = Suc (length aux)" "states ! 0 = s1"
      "last states = s'"
      "\<forall>k<length aux. Sequential_fprop lf (aux ! k) VNone False (states ! k) =
                          Inr (out ! k, states ! Suc k)"
    unfolding fprop_None_chain by blast
  have ne: "states \<noteq> []" using st(2) by auto
  have "\<forall>k<length (trunk # aux).
          Sequential_fprop lf ((trunk # aux) ! k) (if k = 0 then inputs else VNone) False
            ((s # states) ! k) = Inr ((x # out) ! k, (s # states) ! Suc k)"
  proof (intro allI impI)
    fix k assume "k < length (trunk # aux)"
    then show "Sequential_fprop lf ((trunk # aux) ! k) (if k = 0 then inputs else VNone) False
            ((s # states) ! k) = Inr ((x # out) ! k, (s # states) ! Suc k)"
      using 1 st(3) st(5) by (cases k) auto
  qed
  then show ?R
    using st v ne by (intro exI[of _ "x # out"] exI[of _ "s # states"]) simp
next
  assume ?R
  then obtain outs states where v: "v = VList outs"
    and st: "length outs = Suc (length aux)" "length states = Suc (Suc (length aux))"
      "states ! 0 = s" "last states = s'"
    and all: "\<forall>k<Suc (length aux).
                  Sequential_fprop lf ((trunk # aux) ! k) (if k = 0 then inputs else VNone) False
                    (states ! k) = Inr (outs ! k, states ! Suc k)"
    by auto
  from st(1) obtain x out where outs: "outs = x # out" "length out = length aux"
    by (cases outs) auto
  from st(2,3) obtain rest where states: "states = s # rest" "length rest = Suc (length aux)"
    by (cases states) auto
  from all[rule_format, of 0] outs states
  have 1: "Sequential_fprop lf trunk inputs False s = Inr (x, rest ! 0)" by simp
  have "\<forall>k<length aux. Sequential_fprop lf (aux ! k) VNone False (rest ! k) =
                          Inr (out ! k, rest ! Suc k)"
  proof (intro allI impI)
    fix k assume "k < length aux"
    with all[rule_format, of "Suc k"] outs states
    show "Sequential_fprop lf (aux ! k) VNone False (rest ! k) = Inr (out ! k, rest ! Suc k)"
      by simp
  qed
  moreover have "last rest = s'" using st(4) states by (cases rest) auto
  ultimately have "fprop_None lf aux (rest ! 0) = Inr (out, s')"
    unfolding fprop_None_chain using outs(2) states(2) by blast
  with 1 v outs show ?L using assms by (simp add: Tree_fprop_def)
qed

text \<open>The witness: four branches of one and two layers, seven layers in all.\<close>

theorem Tree_fprop_outputs_witness:
  "layers_of example_tree = Inr (Sequential 1 [trunk_conv] # tl grouped_branches) \<and>
   Tree_fprop counting_fprop example_tree (VTensor example_input) True 0 =
     Inr (VTensor example_input, 1) \<and>
   Tree_fprop counting_fprop example_tree (VTensor example_input) False 0 =
     Inr (VList [VTensor example_input, VNone, VNone, VNone], 7)"
proof -
  have l: "layers_of example_tree = Inr (Sequential 1 [trunk_conv] # tl grouped_branches)"
    by (simp add: example_tree_def grouped_branches_def)
  have "Tree_fprop counting_fprop example_tree (VTensor example_input) True 0 =
        Sequential_fprop counting_fprop (Sequential 1 [trunk_conv]) (VTensor example_input) True 0"
    using Tree_fprop_outputs[OF l, of counting_fprop "VTensor example_input" 0]
    by (rule conjunct1)
  then have t: "Tree_fprop counting_fprop example_tree (VTensor example_input) True 0 =
     Inr (VTensor example_input, 1)"
    by (simp add: counting_fprop_def)
  have f: "Tree_fprop counting_fprop example_tree (VTensor example_input) False 0 =
     Inr (VList [VTensor example_input, VNone, VNone, VNone], 7)"
    by (simp add: Tree_fprop_def example_tree_def grouped_branches_def counting_fprop_def)
  from l t f show ?thesis by simp
qed

section \<open>The delta pool of a Sequential\<close>



















section \<open>The residual module: backward\<close>

subsection \<open>Writing into a tensor\<close>




subsection \<open>The backward loop of a Sequential over layers with gradient buffers\<close>






subsection \<open>What set_deltas shares\<close>














section \<open>The residual module: forward\<close>

subsection \<open>What allocate arranges\<close>







subsection \<open>The forward loop of a Sequential over allocated layers\<close>










section \<open>The cost of a Multicost\<close>







end
